theory Spec2Isabelle
  imports Main
begin

section \<open>JavaScript strings\<close>

text \<open>
  A string is a list of code units. The model covers the code units U+0000 to U+00FF
  (one \<^typ>\<open>char\<close> each), which is enough for every literal of the source. A string is
  truthy in a JavaScript condition exactly when it is not empty.
\<close>

text \<open>\<^verbatim>\<open>s.startsWith(p)\<close>\<close>

fun startsWith :: "string \<Rightarrow> string \<Rightarrow> bool" where
  "startsWith s [] = True"
| "startsWith [] (p # ps) = False"
| "startsWith (c # cs) (p # ps) = (c = p \<and> startsWith cs ps)"

text \<open>\<^verbatim>\<open>s.includes(sub)\<close>: \<open>sub\<close> occurs at some position of \<open>s\<close>.\<close>

fun includesStr :: "string \<Rightarrow> string \<Rightarrow> bool" where
  "includesStr [] sub = (sub = [])"
| "includesStr (c # cs) sub = (startsWith (c # cs) sub \<or> includesStr cs sub)"

text \<open>
  \<^verbatim>\<open>s.replace(pat, rep)\<close> with a string pattern: only the first occurrence is replaced.
  Every call of the source passes the empty replacement, so the special \<^verbatim>\<open>$\<close> sequences
  of a replacement string never arise.
\<close>

fun replace :: "string \<Rightarrow> string \<Rightarrow> string \<Rightarrow> string" where
  "replace [] pat rep = (if pat = [] then rep else [])"
| "replace (c # cs) pat rep =
     (if startsWith (c # cs) pat then rep @ drop (length pat) (c # cs)
      else c # replace cs pat rep)"

text \<open>
  White space of ECMAScript (what \<^verbatim>\<open>trim\<close> strips and \<^verbatim>\<open>\s\<close> matches) among the code units
  below U+0100: TAB, LF, VT, FF, CR, SPACE and NO-BREAK SPACE.
\<close>

definition isWhiteSpace :: "char \<Rightarrow> bool" where
  "isWhiteSpace c =
     (c \<in> {CHR 0x09, CHR 0x0A, CHR 0x0B, CHR 0x0C, CHR 0x0D, CHR 0x20, CHR 0xA0})"

text \<open>\<^verbatim>\<open>s.trim()\<close>\<close>

definition trim :: "string \<Rightarrow> string" where
  "trim s = rev (dropWhile isWhiteSpace (rev (dropWhile isWhiteSpace s)))"

text \<open>\<^verbatim>\<open>s.replace(/\s+/g, '')\<close>: every run of white space is deleted.\<close>

definition removeWhiteSpace :: "string \<Rightarrow> string" where
  "removeWhiteSpace s = filter (\<lambda>c. \<not> isWhiteSpace c) s"

text \<open>
  \<^verbatim>\<open>s.toLowerCase()\<close> on the code units below U+0100: the letters A to Z and the
  letters U+00C0 to U+00DE (without the multiplication sign U+00D7) move up by 32.
\<close>

definition toLowerCaseChar :: "char \<Rightarrow> char" where
  "toLowerCaseChar c =
     (let n = (of_char c :: nat)
      in if (65 \<le> n \<and> n \<le> 90) \<or> (192 \<le> n \<and> n \<le> 222 \<and> n \<noteq> 215)
         then char_of (n + 32) else c)"

definition toLowerCase :: "string \<Rightarrow> string" where
  "toLowerCase s = map toLowerCaseChar s"


section \<open>The command interpreter of useVoiceCommands\<close>

text \<open>The values of \<^verbatim>\<open>currentFieldRef.current\<close>; \<^verbatim>\<open>null\<close> is \<open>None\<close>.\<close>

datatype field = Name | Email | Password | ConfirmPassword

text \<open>
  One invocation of a callback of the configuration object, with its argument. The
  interpreter's visible effect is the list of invocations it makes, in order.
\<close>

datatype call =
    OnNameCommand string
  | OnEmailCommand string
  | OnPasswordCommand string
  | OnConfirmPasswordCommand string
  | OnSignInCommand
  | OnSignUpCommand
  | OnGoToSignUpCommand
  | OnNextCommand

text \<open>
  \<^verbatim>\<open>VoiceCommandsConfig\<close>: the callbacks are the caller's. The hook only needs to know
  which of the two optional ones (\<^verbatim>\<open>onNameCommand?\<close>, \<^verbatim>\<open>onConfirmPasswordCommand?\<close>) are
  present, and, for an invocation, whether the caller's function raises (\<open>throws\<close>).
\<close>

record VoiceCommandsConfig =
  hasOnNameCommand :: bool
  hasOnConfirmPasswordCommand :: bool
  throws :: "call \<Rightarrow> bool"

text \<open>
  \<^verbatim>\<open>processVoiceCommand(command)\<close>, lines 32 to 114. The function reads and writes
  \<^verbatim>\<open>currentFieldRef.current\<close> and invokes at most one callback, as its last action on
  every path. It returns the new value of the reference and the invocations made.
\<close>

definition processVoiceCommand ::
  "VoiceCommandsConfig \<Rightarrow> string \<Rightarrow> field option \<Rightarrow> field option \<times> call list" where
  "processVoiceCommand config command currentFieldRef =
    (if includesStr command ''go to sign up'' \<or> includesStr command ''signup page''
       then (currentFieldRef, [OnGoToSignUpCommand])
     else if includesStr command ''sign in'' \<and> \<not> includesStr command ''go to''
       then (currentFieldRef, [OnSignInCommand])
     else if includesStr command ''sign up'' \<and> \<not> includesStr command ''go to''
       then (currentFieldRef, [OnSignUpCommand])
     else if includesStr command ''next''
       then (currentFieldRef, [OnNextCommand])
     else if startsWith command ''name''
       then (let nameText = trim (replace command ''name'' '''')
             in (Some Name,
                 if nameText \<noteq> [] \<and> hasOnNameCommand config
                 then [OnNameCommand nameText] else []))
     else if startsWith command ''email''
       then (let emailText = trim (replace command ''email'' '''')
             in (Some Email,
                 if emailText \<noteq> [] then [OnEmailCommand emailText] else []))
     else if startsWith command ''password'' \<and> \<not> includesStr command ''confirm''
       then (let passwordText = trim (replace command ''password'' '''')
             in (Some Password,
                 if passwordText \<noteq> [] then [OnPasswordCommand passwordText] else []))
     else if startsWith command ''confirm password''
       then (let passwordText = trim (replace command ''confirm password'' '''')
             in (Some ConfirmPassword,
                 if passwordText \<noteq> [] \<and> hasOnConfirmPasswordCommand config
                 then [OnConfirmPasswordCommand passwordText] else []))
     else if currentFieldRef \<noteq> None \<and> command \<noteq> []
       then (case currentFieldRef of
               Some Name \<Rightarrow>
                 (currentFieldRef,
                  if hasOnNameCommand config then [OnNameCommand command] else [])
             | Some Email \<Rightarrow> (currentFieldRef, [OnEmailCommand command])
             | Some Password \<Rightarrow> (currentFieldRef, [OnPasswordCommand command])
             | Some ConfirmPassword \<Rightarrow>
                 (currentFieldRef,
                  if hasOnConfirmPasswordCommand config
                  then [OnConfirmPasswordCommand command] else [])
             | None \<Rightarrow> (currentFieldRef, []))
     else (currentFieldRef, []))"

text \<open>The guards of the four navigation branches (lines 36, 41, 46 and 51).\<close>

definition isNavigation :: "string \<Rightarrow> bool" where
  "isNavigation command =
     (includesStr command ''go to sign up'' \<or> includesStr command ''signup page''
      \<or> (includesStr command ''sign in'' \<and> \<not> includesStr command ''go to'')
      \<or> (includesStr command ''sign up'' \<and> \<not> includesStr command ''go to'')
      \<or> includesStr command ''next'')"

text \<open>The guards of the four field selection branches (lines 57, 66, 75 and 84).\<close>

definition isFieldSelection :: "string \<Rightarrow> bool" where
  "isFieldSelection command =
     (startsWith command ''name'' \<or> startsWith command ''email''
      \<or> (startsWith command ''password'' \<and> \<not> includesStr command ''confirm'')
      \<or> startsWith command ''confirm password'')"

text \<open>The callback that receives the value of a field, and whether it is present.\<close>

fun valueCallback :: "field \<Rightarrow> string \<Rightarrow> call" where
  "valueCallback Name v = OnNameCommand v"
| "valueCallback Email v = OnEmailCommand v"
| "valueCallback Password v = OnPasswordCommand v"
| "valueCallback ConfirmPassword v = OnConfirmPasswordCommand v"

fun hasValueCallback :: "VoiceCommandsConfig \<Rightarrow> field \<Rightarrow> bool" where
  "hasValueCallback config Name = hasOnNameCommand config"
| "hasValueCallback config Email = True"
| "hasValueCallback config Password = True"
| "hasValueCallback config ConfirmPassword = hasOnConfirmPasswordCommand config"


section \<open>The recognition session of useVoiceRecognition\<close>

text \<open>How a call returns: normally, or by a JavaScript exception that leaves it.\<close>

datatype completion = Normal | Exception

text \<open>
  The callbacks handed to \<^verbatim>\<open>setTimeout\<close>: the restart after a no-speech error (lines 48 to
  56 of useVoiceRecognition) and the reset of the transcript (lines 26 to 28 of
  useVoiceCommands). A pending timer is kept with its delay in milliseconds.
\<close>

datatype timer = RetryStart | ResetTranscriptTimer

text \<open>The calls made on the engine object, with the place that makes a start call.\<close>

datatype caller = ByStartListening | ByRetryTimer

datatype engine_call = EngineStart caller | EngineStop

text \<open>
  The state of the hook: the two \<^verbatim>\<open>useState\<close> cells, \<^verbatim>\<open>isSupported\<close> (constant; the mount
  effect stores an engine object in \<^verbatim>\<open>recognitionRef.current\<close> exactly when it holds, and
  nothing clears the reference afterwards), the pending timers in the order they were
  scheduled (all delays are equal, so this is the order they fire in), and the log of
  the calls made on the engine.
\<close>

record RecognitionState =
  isListening :: bool
  transcript :: string
  isSupported :: bool
  timers :: "(nat \<times> timer) list"
  engineCalls :: "engine_call list"

definition initialRecognitionState :: "bool \<Rightarrow> RecognitionState" where
  "initialRecognitionState supported =
     \<lparr>isListening = False, transcript = [], isSupported = supported,
      timers = [], engineCalls = []\<rparr>"

text \<open>
  \<^verbatim>\<open>recognitionRef.current.start()\<close>. The engine is a black box: whether the call raises
  (\<open>fails\<close>) is the environment's choice.
\<close>

definition engine_start ::
  "caller \<Rightarrow> bool \<Rightarrow> 'a RecognitionState_scheme \<Rightarrow> 'a RecognitionState_scheme \<times> completion" where
  "engine_start who fails s =
     (s\<lparr>engineCalls := engineCalls s @ [EngineStart who]\<rparr>,
      if fails then Exception else Normal)"

text \<open>
  The handlers are created once, by the mount effect (dependencies \<^verbatim>\<open>[isSupported]\<close>), so
  the \<^verbatim>\<open>isListening\<close> they read is the value of the first render, \<^verbatim>\<open>useState(false)\<close>.
\<close>

definition isListening_at_mount :: bool where
  "isListening_at_mount = False"

text \<open>\<^verbatim>\<open>recognition.onstart\<close>, lines 31 to 33.\<close>

definition onstart :: "'a RecognitionState_scheme \<Rightarrow> 'a RecognitionState_scheme" where
  "onstart s = s\<lparr>isListening := True\<rparr>"

text \<open>
  \<^verbatim>\<open>recognition.onresult\<close>, lines 35 to 40; the arguments are \<^verbatim>\<open>isFinal\<close> of the first
  result and the text of its first alternative.
\<close>

definition onresult ::
  "bool \<Rightarrow> string \<Rightarrow> 'a RecognitionState_scheme \<Rightarrow> 'a RecognitionState_scheme" where
  "onresult isFinal text s = (if isFinal then s\<lparr>transcript := trim text\<rparr> else s)"

text \<open>\<^verbatim>\<open>recognition.onerror\<close>, lines 42 to 58; the argument is \<^verbatim>\<open>event.error\<close>.\<close>

definition onerror :: "string \<Rightarrow> 'a RecognitionState_scheme \<Rightarrow> 'a RecognitionState_scheme" where
  "onerror err s =
     (let s1 = s\<lparr>isListening := False\<rparr>
      in if err = ''no-speech'' then s1\<lparr>timers := timers s1 @ [(1000, RetryStart)]\<rparr>
         else s1)"

text \<open>The function scheduled by \<^verbatim>\<open>onerror\<close>, lines 49 to 55.\<close>

definition retryCallback ::
  "bool \<Rightarrow> 'a RecognitionState_scheme \<Rightarrow> 'a RecognitionState_scheme \<times> completion" where
  "retryCallback fails s =
     (if isSupported s \<and> \<not> isListening_at_mount
      then (case engine_start ByRetryTimer fails s of
              (s1, Exception) \<Rightarrow> (s1, Normal)
            | (s1, Normal) \<Rightarrow> (s1, Normal))
      else (s, Normal))"

text \<open>\<^verbatim>\<open>recognition.onend\<close>, lines 60 to 62.\<close>

definition onend :: "'a RecognitionState_scheme \<Rightarrow> 'a RecognitionState_scheme" where
  "onend s = s\<lparr>isListening := False\<rparr>"

text \<open>\<^verbatim>\<open>startListening\<close>, lines 71 to 81, with the \<^verbatim>\<open>catch\<close> block as the exception branch.\<close>

definition startListening ::
  "bool \<Rightarrow> 'a RecognitionState_scheme \<Rightarrow> 'a RecognitionState_scheme \<times> completion" where
  "startListening fails s =
     (if isSupported s \<and> \<not> isListening s
      then (case engine_start ByStartListening fails (s\<lparr>transcript := []\<rparr>) of
              (s1, Exception) \<Rightarrow> (s1\<lparr>isListening := False\<rparr>, Normal)
            | (s1, Normal) \<Rightarrow> (s1, Normal))
      else (s, Normal))"

text \<open>\<^verbatim>\<open>stopListening\<close>, lines 83 to 87.\<close>

definition stopListening :: "'a RecognitionState_scheme \<Rightarrow> 'a RecognitionState_scheme" where
  "stopListening s =
     (if isSupported s \<and> isListening s then s\<lparr>engineCalls := engineCalls s @ [EngineStop]\<rparr>
      else s)"

text \<open>\<^verbatim>\<open>resetTranscript\<close>, lines 89 to 91.\<close>

definition resetTranscript :: "'a RecognitionState_scheme \<Rightarrow> 'a RecognitionState_scheme" where
  "resetTranscript s = s\<lparr>transcript := []\<rparr>"

text \<open>
  What can happen to a mounted hook: the four engine events, the three operations it
  returns, and the oldest pending timer firing. \<open>StartListening\<close> and \<open>Timeout\<close> carry
  whether the engine's start primitive raises when it is called.
\<close>

datatype event =
    OnStart
  | OnResult bool string
  | OnError string
  | OnEnd
  | StartListening bool
  | StopListening
  | ResetTranscript
  | Timeout bool

text \<open>
  One event. Without support the mount effect returns at line 20: there is no engine,
  so no handler ever runs.
\<close>

definition recognition_step ::
  "event \<Rightarrow> 'a RecognitionState_scheme \<Rightarrow> 'a RecognitionState_scheme" where
  "recognition_step e s =
     (case e of
        OnStart \<Rightarrow> if isSupported s then onstart s else s
      | OnResult isFinal text \<Rightarrow> if isSupported s then onresult isFinal text s else s
      | OnError err \<Rightarrow> if isSupported s then onerror err s else s
      | OnEnd \<Rightarrow> if isSupported s then onend s else s
      | StartListening fails \<Rightarrow> fst (startListening fails s)
      | StopListening \<Rightarrow> stopListening s
      | ResetTranscript \<Rightarrow> resetTranscript s
      | Timeout fails \<Rightarrow>
          (case timers s of
             [] \<Rightarrow> s
           | (delay, RetryStart) # rest \<Rightarrow> fst (retryCallback fails (s\<lparr>timers := rest\<rparr>))
           | (delay, ResetTranscriptTimer) # rest \<Rightarrow> resetTranscript (s\<lparr>timers := rest\<rparr>)))"

fun recognition_run ::
  "event list \<Rightarrow> 'a RecognitionState_scheme \<Rightarrow> 'a RecognitionState_scheme" where
  "recognition_run [] s = s"
| "recognition_run (e # es) s = recognition_run es (recognition_step e s)"

text \<open>Counting: restarts made by the retry timer, retries still pending, no-speech errors.\<close>

definition automaticStarts :: "'a RecognitionState_scheme \<Rightarrow> nat" where
  "automaticStarts s = length (filter (\<lambda>c. c = EngineStart ByRetryTimer) (engineCalls s))"

definition pendingRetries :: "'a RecognitionState_scheme \<Rightarrow> nat" where
  "pendingRetries s = length (filter (\<lambda>t. snd t = RetryStart) (timers s))"

definition noSpeechErrors :: "event list \<Rightarrow> nat" where
  "noSpeechErrors es = length (filter (\<lambda>e. e = OnError ''no-speech'') es)"


section \<open>The transcript effect of useVoiceCommands\<close>

text \<open>
  The hook's state: that of the recognition hook it calls, its two references, and the
  log of what it did (the commands handed to \<^verbatim>\<open>processVoiceCommand\<close>, which line 33 prints,
  and the callback invocations made).
\<close>

record VoiceCommandsState = RecognitionState +
  lastTranscriptRef :: string
  currentFieldRef :: "field option"
  processed :: "string list"
  invoked :: "call list"

definition initialVoiceCommandsState :: "bool \<Rightarrow> VoiceCommandsState" where
  "initialVoiceCommandsState supported =
     \<lparr>isListening = False, transcript = [], isSupported = supported,
      timers = [], engineCalls = [],
      lastTranscriptRef = [], currentFieldRef = None, processed = [], invoked = []\<rparr>"

text \<open>
  The body of the effect, lines 21 to 29. Line 22 writes the reference, line 23
  interprets; a callback that raises leaves the effect there, before line 26 schedules
  the reset.
\<close>

definition transcriptEffect ::
  "VoiceCommandsConfig \<Rightarrow> VoiceCommandsState \<Rightarrow> VoiceCommandsState \<times> completion" where
  "transcriptEffect config s =
     (if transcript s \<noteq> [] \<and> transcript s \<noteq> lastTranscriptRef s
      then (let s1 = s\<lparr>lastTranscriptRef := transcript s\<rparr>;
                command = toLowerCase (transcript s);
                r = processVoiceCommand config command (currentFieldRef s1);
                s2 = s1\<lparr>currentFieldRef := fst r,
                        processed := processed s1 @ [command],
                        invoked := invoked s1 @ snd r\<rparr>
            in if list_ex (throws config) (snd r) then (s2, Exception)
               else (s2\<lparr>timers := timers s2 @ [(1000, ResetTranscriptTimer)]\<rparr>, Normal))
      else (s, Normal))"

text \<open>\<^verbatim>\<open>setCurrentField\<close>, lines 116 to 118.\<close>

definition setCurrentField :: "field option \<Rightarrow> VoiceCommandsState \<Rightarrow> VoiceCommandsState" where
  "setCurrentField f s = s\<lparr>currentFieldRef := f\<rparr>"

text \<open>
  The events of the recognition hook, and the caller using \<^verbatim>\<open>setCurrentField\<close>. The effect
  has the dependencies \<^verbatim>\<open>[transcript]\<close>: it runs after an event that changed \<^verbatim>\<open>transcript\<close>.
\<close>

datatype hook_event = Session event | SetCurrentField "field option"

definition hook_step ::
  "VoiceCommandsConfig \<Rightarrow> hook_event \<Rightarrow> VoiceCommandsState \<Rightarrow> VoiceCommandsState \<times> completion" where
  "hook_step config e s =
     (case e of
        SetCurrentField f \<Rightarrow> (setCurrentField f s, Normal)
      | Session ev \<Rightarrow>
          (let s1 = recognition_step ev s
           in if transcript s1 \<noteq> transcript s then transcriptEffect config s1
              else (s1, Normal)))"

text \<open>A sequence of events; an exception that leaves the effect ends the run.\<close>

fun hook_run ::
  "VoiceCommandsConfig \<Rightarrow> hook_event list \<Rightarrow> VoiceCommandsState \<Rightarrow> VoiceCommandsState \<times> completion" where
  "hook_run config [] s = (s, Normal)"
| "hook_run config (e # es) s =
     (case hook_step config e s of
        (s1, Normal) \<Rightarrow> hook_run config es s1
      | (s1, Exception) \<Rightarrow> (s1, Exception))"

text \<open>An event that publishes a final transcript other than \<open>t\<close> and the empty one.\<close>

fun publishesOther :: "string \<Rightarrow> hook_event \<Rightarrow> bool" where
  "publishesOther t (Session (OnResult isFinal text)) =
     (isFinal \<and> trim text \<noteq> t \<and> trim text \<noteq> [])"
| "publishesOther t e = False"


section \<open>The two pages that use the hook\<close>

text \<open>What a page's callback does beyond updating the page's state.\<close>

datatype page_action = HandleSubmit | NavigateTo string | Focus field

text \<open>
  Both pages are in \<^verbatim>\<open>src/unnamed/part_001\<close>; the line numbers are those of that file.
  RegisterPage: \<^verbatim>\<open>formData\<close> (lines 10 to 15) and its own \<^verbatim>\<open>currentField\<close> (line 19), which
  is a state of the page and not the hook's \<^verbatim>\<open>currentFieldRef\<close>.
\<close>

record FormData =
  name :: string
  email :: string
  password :: string
  confirmPassword :: string

record RegisterPage =
  formData :: FormData
  currentField :: field

text \<open>
  The configuration object of RegisterPage, lines 28 to 79, one callback per equation;
  lines 53 and 73 test the four fields of \<^verbatim>\<open>formData\<close> for being non-empty.
\<close>

fun RegisterPage_callback :: "call \<Rightarrow> RegisterPage \<Rightarrow> RegisterPage \<times> page_action list" where
  "RegisterPage_callback (OnNameCommand nameText) p =
     (p\<lparr>formData := (formData p)\<lparr>name := nameText\<rparr>, currentField := Name\<rparr>, [Focus Name])"
| "RegisterPage_callback (OnEmailCommand emailText) p =
     (p\<lparr>formData := (formData p)\<lparr>email := toLowerCase (removeWhiteSpace emailText)\<rparr>,
        currentField := Email\<rparr>, [Focus Email])"
| "RegisterPage_callback (OnPasswordCommand passwordText) p =
     (p\<lparr>formData := (formData p)\<lparr>password := removeWhiteSpace passwordText\<rparr>,
        currentField := Password\<rparr>, [Focus Password])"
| "RegisterPage_callback (OnConfirmPasswordCommand passwordText) p =
     (p\<lparr>formData := (formData p)\<lparr>confirmPassword := removeWhiteSpace passwordText\<rparr>,
        currentField := ConfirmPassword\<rparr>, [Focus ConfirmPassword])"
| "RegisterPage_callback OnSignInCommand p = (p, [NavigateTo ''/login''])"
| "RegisterPage_callback OnSignUpCommand p =
     (p, if name (formData p) \<noteq> [] \<and> email (formData p) \<noteq> []
             \<and> password (formData p) \<noteq> [] \<and> confirmPassword (formData p) \<noteq> []
         then [HandleSubmit] else [])"
| "RegisterPage_callback OnGoToSignUpCommand p = (p, [])"
| "RegisterPage_callback OnNextCommand p =
     (case currentField p of
        Name \<Rightarrow> (p\<lparr>currentField := Email\<rparr>, [Focus Email])
      | Email \<Rightarrow> (p\<lparr>currentField := Password\<rparr>, [Focus Password])
      | Password \<Rightarrow> (p\<lparr>currentField := ConfirmPassword\<rparr>, [Focus ConfirmPassword])
      | ConfirmPassword \<Rightarrow>
          (p, if name (formData p) \<noteq> [] \<and> email (formData p) \<noteq> []
                  \<and> password (formData p) \<noteq> [] \<and> confirmPassword (formData p) \<noteq> []
              then [HandleSubmit] else []))"

definition RegisterPage_config :: VoiceCommandsConfig where
  "RegisterPage_config =
     \<lparr>hasOnNameCommand = True, hasOnConfirmPasswordCommand = True,
      throws = (\<lambda>c. False)\<rparr>"

text \<open>LoginPage: \<^verbatim>\<open>email\<close> and \<^verbatim>\<open>password\<close>, lines 336 and 337.\<close>

record LoginPage =
  login_email :: string
  login_password :: string

text \<open>
  The configuration object of LoginPage, lines 344 to 362. It has no
  \<^verbatim>\<open>onConfirmPasswordCommand\<close>, so the hook never makes that invocation.
\<close>

fun LoginPage_callback :: "call \<Rightarrow> LoginPage \<Rightarrow> LoginPage \<times> page_action list" where
  "LoginPage_callback (OnNameCommand nameText) p = (p, [])"
| "LoginPage_callback (OnEmailCommand emailText) p =
     (p\<lparr>login_email := toLowerCase (removeWhiteSpace emailText)\<rparr>, [])"
| "LoginPage_callback (OnPasswordCommand passwordText) p =
     (p\<lparr>login_password := removeWhiteSpace passwordText\<rparr>, [])"
| "LoginPage_callback (OnConfirmPasswordCommand passwordText) p = (p, [])"
| "LoginPage_callback OnSignInCommand p =
     (p, if login_email p \<noteq> [] \<and> login_password p \<noteq> [] then [HandleSubmit] else [])"
| "LoginPage_callback OnSignUpCommand p = (p, [])"
| "LoginPage_callback OnGoToSignUpCommand p = (p, [NavigateTo ''/register''])"
| "LoginPage_callback OnNextCommand p = (p, [])"

definition LoginPage_config :: VoiceCommandsConfig where
  "LoginPage_config =
     \<lparr>hasOnNameCommand = True, hasOnConfirmPasswordCommand = False,
      throws = (\<lambda>c. False)\<rparr>"

text \<open>
  A page hearing one command: the interpreter runs with the page's configuration and
  the page's callbacks receive its invocations, in order.
\<close>

fun RegisterPage_apply ::
  "call list \<Rightarrow> RegisterPage \<Rightarrow> RegisterPage \<times> page_action list" where
  "RegisterPage_apply [] p = (p, [])"
| "RegisterPage_apply (c # cs) p =
     (let (p1, as1) = RegisterPage_callback c p;
          (p2, as2) = RegisterPage_apply cs p1
      in (p2, as1 @ as2))"

fun LoginPage_apply :: "call list \<Rightarrow> LoginPage \<Rightarrow> LoginPage \<times> page_action list" where
  "LoginPage_apply [] p = (p, [])"
| "LoginPage_apply (c # cs) p =
     (let (p1, as1) = LoginPage_callback c p;
          (p2, as2) = LoginPage_apply cs p1
      in (p2, as1 @ as2))"

definition RegisterPage_hears ::
  "string \<Rightarrow> field option \<Rightarrow> RegisterPage \<Rightarrow> RegisterPage \<times> page_action list" where
  "RegisterPage_hears command cf p =
     RegisterPage_apply (snd (processVoiceCommand RegisterPage_config command cf)) p"

definition LoginPage_hears ::
  "string \<Rightarrow> field option \<Rightarrow> LoginPage \<Rightarrow> LoginPage \<times> page_action list" where
  "LoginPage_hears command cf p =
     LoginPage_apply (snd (processVoiceCommand LoginPage_config command cf)) p"

text \<open>The pages as they are mounted: lines 10 to 19 of RegisterPage, 336 and 337 of LoginPage.\<close>

definition initialRegisterPage :: RegisterPage where
  "initialRegisterPage =
     \<lparr>formData = \<lparr>name = [], email = [], password = [], confirmPassword = []\<rparr>,
      currentField = Name\<rparr>"

definition initialLoginPage :: LoginPage where
  "initialLoginPage = \<lparr>login_email = [], login_password = []\<rparr>"



section \<open>Facts about the string operations\<close>

lemma startsWith_iff: "startsWith s p \<longleftrightarrow> (\<exists>r. s = p @ r)"
  by (induction s p rule: startsWith.induct) auto

lemma includesStr_iff: "includesStr s sub \<longleftrightarrow> (\<exists>a b. s = a @ sub @ b)"
proof (induction s)
  case Nil
  then show ?case by auto
next
  case (Cons c cs)
  show ?case
  proof
    assume "includesStr (c # cs) sub"
    then consider "startsWith (c # cs) sub" | "includesStr cs sub" by auto
    then show "\<exists>a b. c # cs = a @ sub @ b"
    proof cases
      case 1
      then obtain r where "c # cs = sub @ r" by (auto simp: startsWith_iff)
      then have "c # cs = [] @ sub @ r" by simp
      then show ?thesis by blast
    next
      case 2
      then obtain a b where "cs = a @ sub @ b" using Cons.IH by blast
      then have "c # cs = (c # a) @ sub @ b" by simp
      then show ?thesis by blast
    qed
  next
    assume "\<exists>a b. c # cs = a @ sub @ b"
    then obtain a b where ab: "c # cs = a @ sub @ b" by blast
    show "includesStr (c # cs) sub"
    proof (cases a)
      case Nil
      with ab have "startsWith (c # cs) sub" by (auto simp: startsWith_iff)
      then show ?thesis by simp
    next
      case (Cons x a')
      with ab have "cs = a' @ sub @ b" by simp
      then have "includesStr cs sub" using Cons.IH by blast
      then show ?thesis by simp
    qed
  qed
qed

lemma replace_prefix:
  "startsWith s p \<Longrightarrow> p \<noteq> [] \<Longrightarrow> replace s p rep = rep @ drop (length p) s"
  by (cases s; cases p) auto

lemma includes_confirm:
  assumes "includesStr c ''confirm password''"
  shows "includesStr c ''confirm''"
proof -
  from assms obtain a b where "c = a @ ''confirm password'' @ b"
    by (auto simp: includesStr_iff)
  then have "c = a @ ''confirm'' @ ('' password'' @ b)" by simp
  then show ?thesis unfolding includesStr_iff by blast
qed

lemmas string_defs = trim_def isWhiteSpace_def removeWhiteSpace_def toLowerCase_def
  toLowerCaseChar_def char_of_eq_iff

lemmas step_defs = recognition_step_def onstart_def onresult_def onerror_def onend_def
  startListening_def engine_start_def stopListening_def resetTranscript_def
  retryCallback_def isListening_at_mount_def

lemmas hook_defs = hook_step_def transcriptEffect_def setCurrentField_def
  processVoiceCommand_def

section \<open>The interpreter\<close>

lemma processVoiceCommand_one_call:
  "length (snd (processVoiceCommand config command cf)) \<le> 1"
  by (auto simp: processVoiceCommand_def Let_def split: option.splits field.splits)

text \<open>
  C2, amended. For every command that starts with "confirm password" and triggers none
  of the four navigation rules (they are tested first), and for every current field and
  configuration, the interpreter makes ConfirmPassword the current field and, with X the
  trimmed remainder after the prefix, invokes the confirm-password callback with X
  exactly when X is not empty and that optional callback is configured; it invokes
  nothing else. For every command that contains "confirm password" anywhere, the
  interpreter never selects Password: the current field is Password afterwards only if it
  was before, and the password callback is invoked, if at all, as direct input, with the
  whole command and with Password as the current field.
\<close>

theorem confirm_password_selects_confirm:
  "(includesStr command ''confirm password'' \<longrightarrow>
      (fst (processVoiceCommand config command cf) = Some Password \<longrightarrow> cf = Some Password)
      \<and> (\<forall>v. OnPasswordCommand v \<in> set (snd (processVoiceCommand config command cf))
            \<longrightarrow> cf = Some Password \<and> v = command))
   \<and> (startsWith command ''confirm password'' \<and> \<not> isNavigation command \<longrightarrow>
        processVoiceCommand config command cf =
          (Some ConfirmPassword,
           if trim (drop 16 command) \<noteq> [] \<and> hasOnConfirmPasswordCommand config
           then [OnConfirmPasswordCommand (trim (drop 16 command))] else []))"
proof (intro conjI impI allI)
  assume "includesStr command ''confirm password''"
  then have c: "includesStr command ''confirm''" by (rule includes_confirm)
  assume "fst (processVoiceCommand config command cf) = Some Password"
  then show "cf = Some Password"
    using c by (auto simp: processVoiceCommand_def Let_def
                     split: if_splits option.splits field.splits)
next
  fix v
  assume "includesStr command ''confirm password''"
  then have c: "includesStr command ''confirm''" by (rule includes_confirm)
  assume "OnPasswordCommand v \<in> set (snd (processVoiceCommand config command cf))"
  then show "cf = Some Password"
    using c by (auto simp: processVoiceCommand_def Let_def
                     split: if_splits option.splits field.splits)
next
  fix v
  assume "includesStr command ''confirm password''"
  then have c: "includesStr command ''confirm''" by (rule includes_confirm)
  assume "OnPasswordCommand v \<in> set (snd (processVoiceCommand config command cf))"
  then show "v = command"
    using c by (auto simp: processVoiceCommand_def Let_def
                     split: if_splits option.splits field.splits)
next
  assume h: "startsWith command ''confirm password'' \<and> \<not> isNavigation command"
  then obtain r where r: "command = ''confirm password'' @ r"
    by (auto simp: startsWith_iff)
  have len: "length ''confirm password'' = 16" by simp
  have "replace command ''confirm password'' [] =
        [] @ drop (length ''confirm password'') command"
    by (rule replace_prefix) (use h in simp_all)
  then have rep: "replace command ''confirm password'' [] = drop 16 command"
    by (simp only: len append_Nil)
  have n: "\<not> startsWith command ''name''" "\<not> startsWith command ''email''"
          "\<not> startsWith command ''password''"
    using r by simp_all
  show "processVoiceCommand config command cf =
          (Some ConfirmPassword,
           if trim (drop 16 command) \<noteq> [] \<and> hasOnConfirmPasswordCommand config
           then [OnConfirmPasswordCommand (trim (drop 16 command))] else [])"
    using h n rep unfolding processVoiceCommand_def isNavigation_def Let_def by simp
qed

theorem confirm_password_selects_confirm_witness:
  "includesStr ''confirm password hunter2'' ''confirm password''
   \<and> startsWith ''confirm password hunter2'' ''confirm password''
   \<and> \<not> isNavigation ''confirm password hunter2''
   \<and> processVoiceCommand RegisterPage_config ''confirm password hunter2'' (Some Password) =
       (Some ConfirmPassword, [OnConfirmPasswordCommand ''hunter2''])"
proof -
  have h: "includesStr ''confirm password hunter2'' ''confirm password''"
          "startsWith ''confirm password hunter2'' ''confirm password''"
          "\<not> isNavigation ''confirm password hunter2''"
    by (simp_all add: isNavigation_def)
  have v: "trim (drop 16 ''confirm password hunter2'') = ''hunter2''"
    by (simp add: trim_def isWhiteSpace_def)
  show ?thesis
    using h v confirm_password_selects_confirm
      [of "''confirm password hunter2''" RegisterPage_config "Some Password"]
    by (simp add: RegisterPage_config_def)
qed

theorem confirm_password_counterexample:
  "includesStr ''confirm password next'' ''confirm password''
   \<and> processVoiceCommand RegisterPage_config ''confirm password next'' (Some Password) =
       (Some Password, [OnNextCommand])
   \<and> includesStr ''please confirm password abc'' ''confirm password''
   \<and> processVoiceCommand RegisterPage_config ''please confirm password abc'' (Some Email) =
       (Some Email, [OnEmailCommand ''please confirm password abc''])
   \<and> includesStr ''confirm password abc'' ''confirm password''
   \<and> processVoiceCommand LoginPage_config ''confirm password abc'' None =
       (Some ConfirmPassword, [])"
  by (simp add: processVoiceCommand_def RegisterPage_config_def LoginPage_config_def
        trim_def isWhiteSpace_def)

text \<open>
  C7, amended. For every non-empty command that satisfies none of the navigation and
  none of the field selection guards, the current field is left as it is; if it is
  \<open>None\<close> no callback is invoked, and otherwise the callback of the current field is invoked
  with the whole command, and nothing else, provided that callback is configured: for
  Name and ConfirmPassword the callback is optional, and when it is absent nothing is
  invoked.
\<close>

theorem fallback_direct_input:
  "command \<noteq> [] \<and> \<not> isNavigation command \<and> \<not> isFieldSelection command \<longrightarrow>
     processVoiceCommand config command cf =
       (cf, case cf of
              None \<Rightarrow> []
            | Some f \<Rightarrow> if hasValueCallback config f then [valueCallback f command] else [])"
  unfolding processVoiceCommand_def isNavigation_def isFieldSelection_def
  by (cases cf; cases "the cf") auto

theorem fallback_direct_input_witness:
  "''jane@example.com'' \<noteq> [] \<and> \<not> isNavigation ''jane@example.com''
   \<and> \<not> isFieldSelection ''jane@example.com''
   \<and> processVoiceCommand LoginPage_config ''jane@example.com'' (Some Email) =
       (Some Email, [OnEmailCommand ''jane@example.com''])
   \<and> processVoiceCommand LoginPage_config ''jane@example.com'' None = (None, [])"
proof -
  have h: "''jane@example.com'' \<noteq> [] \<and> \<not> isNavigation ''jane@example.com''
           \<and> \<not> isFieldSelection ''jane@example.com''"
    by (simp add: isNavigation_def isFieldSelection_def)
  show ?thesis
    using h fallback_direct_input [of "''jane@example.com''" LoginPage_config "Some Email"]
      fallback_direct_input [of "''jane@example.com''" LoginPage_config None]
    by simp
qed

theorem fallback_absent_callback_counterexample:
  "''hunter2'' \<noteq> [] \<and> \<not> isNavigation ''hunter2'' \<and> \<not> isFieldSelection ''hunter2''
   \<and> processVoiceCommand LoginPage_config ''confirm password'' None =
       (Some ConfirmPassword, [])
   \<and> processVoiceCommand LoginPage_config ''hunter2'' (Some ConfirmPassword) =
       (Some ConfirmPassword, [])"
  by (simp add: processVoiceCommand_def isNavigation_def isFieldSelection_def
        LoginPage_config_def trim_def)

text \<open>
  C10, amended. The transcript "email john dot doe at example dot com" is its own lower
  case; for every configuration and current field the interpreter makes Email the
  current field and invokes the email callback with "john dot doe at example dot com"
  (the prefix "email" removed, the rest trimmed, every "dot" kept); the registration
  page's callback removes the white space and lower-cases, stores
  "johndotdoeatexampledotcom" and makes Email the page's current field.
\<close>

theorem email_end_to_end:
  "toLowerCase ''email john dot doe at example dot com'' =
     ''email john dot doe at example dot com''
   \<and> processVoiceCommand config ''email john dot doe at example dot com'' cf =
       (Some Email, [OnEmailCommand ''john dot doe at example dot com''])
   \<and> RegisterPage_callback (OnEmailCommand ''john dot doe at example dot com'') p =
       (p\<lparr>formData := (formData p)\<lparr>email := ''johndotdoeatexampledotcom''\<rparr>,
          currentField := Email\<rparr>, [Focus Email])"
  by (simp add: processVoiceCommand_def string_defs)

theorem email_end_to_end_counterexample:
  "snd (processVoiceCommand RegisterPage_config
          (toLowerCase ''email john dot doe at example dot com'') None)
     \<noteq> [OnEmailCommand ''john doe at example dot com'']
   \<and> email (formData (fst (RegisterPage_hears
          (toLowerCase ''email john dot doe at example dot com'') None initialRegisterPage)))
     \<noteq> ''johndoeatexampledotcom''"
  by (simp add: RegisterPage_hears_def processVoiceCommand_def string_defs
        initialRegisterPage_def)

lemma RegisterPage_callback_submit:
  "HandleSubmit \<in> set (snd (RegisterPage_callback c p)) \<Longrightarrow>
     name (formData p) \<noteq> [] \<and> email (formData p) \<noteq> []
     \<and> password (formData p) \<noteq> [] \<and> confirmPassword (formData p) \<noteq> []"
  by (cases c) (auto split: field.splits if_splits)

lemma LoginPage_callback_submit:
  "HandleSubmit \<in> set (snd (LoginPage_callback c q)) \<Longrightarrow>
     login_email q \<noteq> [] \<and> login_password q \<noteq> []"
  by (cases c) (auto split: if_splits)

lemma RegisterPage_apply_one:
  "length cs \<le> 1 \<Longrightarrow> HandleSubmit \<in> set (snd (RegisterPage_apply cs p)) \<Longrightarrow>
     name (formData p) \<noteq> [] \<and> email (formData p) \<noteq> []
     \<and> password (formData p) \<noteq> [] \<and> confirmPassword (formData p) \<noteq> []"
  by (cases cs) (auto split: prod.splits dest: RegisterPage_callback_submit [of _ p])

lemma LoginPage_apply_one:
  "length cs \<le> 1 \<Longrightarrow> HandleSubmit \<in> set (snd (LoginPage_apply cs q)) \<Longrightarrow>
     login_email q \<noteq> [] \<and> login_password q \<noteq> []"
  by (cases cs) (auto split: prod.splits dest: LoginPage_callback_submit [of _ q])

lemma navigation_keeps_field:
  "snd (processVoiceCommand config command cf) = [OnSignUpCommand]
   \<or> snd (processVoiceCommand config command cf) = [OnSignInCommand]
   \<or> snd (processVoiceCommand config command cf) = [OnNextCommand]
   \<Longrightarrow> fst (processVoiceCommand config command cf) = cf"
  by (auto simp: processVoiceCommand_def Let_def split: if_splits option.splits field.splits)

text \<open>
  C6, amended. On the page that owns the form, a command that the interpreter answers
  with the sign-up invocation (registration page) or the sign-in invocation (login page)
  triggers the form's submit action exactly when every required field holds a non-empty
  value (name, email, password and confirmPassword; email and password), and otherwise
  changes nothing. On the other page the command never submits: on the registration page
  the sign-in invocation navigates to /login whatever the fields hold, and on the login
  page the sign-up invocation does nothing. A command answered with the next invocation,
  heard while the registration page's own current field is ConfirmPassword, triggers
  submit when all four fields are non-empty, and when one is empty it leaves the page,
  its current field included, as it is and triggers no submit. In these cases the
  hook's current field, whatever it is, stays as it was. No command at all makes either
  page submit while a required field is empty.
\<close>

theorem guarded_voice_submission:
  "(snd (processVoiceCommand RegisterPage_config command cf) = [OnSignUpCommand] \<longrightarrow>
      RegisterPage_hears command cf p =
        (p, if name (formData p) \<noteq> [] \<and> email (formData p) \<noteq> []
               \<and> password (formData p) \<noteq> [] \<and> confirmPassword (formData p) \<noteq> []
            then [HandleSubmit] else [])
      \<and> fst (processVoiceCommand RegisterPage_config command cf) = cf)
   \<and> (snd (processVoiceCommand LoginPage_config command cf) = [OnSignInCommand] \<longrightarrow>
      LoginPage_hears command cf q =
        (q, if login_email q \<noteq> [] \<and> login_password q \<noteq> [] then [HandleSubmit] else [])
      \<and> fst (processVoiceCommand LoginPage_config command cf) = cf)
   \<and> (snd (processVoiceCommand RegisterPage_config command cf) = [OnSignInCommand] \<longrightarrow>
      RegisterPage_hears command cf p = (p, [NavigateTo ''/login''])
      \<and> fst (processVoiceCommand RegisterPage_config command cf) = cf)
   \<and> (snd (processVoiceCommand LoginPage_config command cf) = [OnSignUpCommand] \<longrightarrow>
      LoginPage_hears command cf q = (q, [])
      \<and> fst (processVoiceCommand LoginPage_config command cf) = cf)
   \<and> (snd (processVoiceCommand RegisterPage_config command cf) = [OnNextCommand]
        \<and> currentField p = ConfirmPassword \<longrightarrow>
      RegisterPage_hears command cf p =
        (p, if name (formData p) \<noteq> [] \<and> email (formData p) \<noteq> []
               \<and> password (formData p) \<noteq> [] \<and> confirmPassword (formData p) \<noteq> []
            then [HandleSubmit] else [])
      \<and> fst (processVoiceCommand RegisterPage_config command cf) = cf)
   \<and> (HandleSubmit \<in> set (snd (RegisterPage_hears command cf p)) \<longrightarrow>
        name (formData p) \<noteq> [] \<and> email (formData p) \<noteq> []
        \<and> password (formData p) \<noteq> [] \<and> confirmPassword (formData p) \<noteq> [])
   \<and> (HandleSubmit \<in> set (snd (LoginPage_hears command cf q)) \<longrightarrow>
        login_email q \<noteq> [] \<and> login_password q \<noteq> [])"
proof -
  have a: "RegisterPage_hears command cf p =
             (p, if name (formData p) \<noteq> [] \<and> email (formData p) \<noteq> []
                    \<and> password (formData p) \<noteq> [] \<and> confirmPassword (formData p) \<noteq> []
                 then [HandleSubmit] else [])
           \<and> fst (processVoiceCommand RegisterPage_config command cf) = cf"
    if "snd (processVoiceCommand RegisterPage_config command cf) = [OnSignUpCommand]"
    using that navigation_keeps_field [of RegisterPage_config command cf]
    by (simp add: RegisterPage_hears_def)
  have b: "LoginPage_hears command cf q =
             (q, if login_email q \<noteq> [] \<and> login_password q \<noteq> [] then [HandleSubmit] else [])
           \<and> fst (processVoiceCommand LoginPage_config command cf) = cf"
    if "snd (processVoiceCommand LoginPage_config command cf) = [OnSignInCommand]"
    using that navigation_keeps_field [of LoginPage_config command cf]
    by (simp add: LoginPage_hears_def)
  have a': "RegisterPage_hears command cf p = (p, [NavigateTo ''/login''])
           \<and> fst (processVoiceCommand RegisterPage_config command cf) = cf"
    if "snd (processVoiceCommand RegisterPage_config command cf) = [OnSignInCommand]"
    using that navigation_keeps_field [of RegisterPage_config command cf]
    by (simp add: RegisterPage_hears_def)
  have b': "LoginPage_hears command cf q = (q, [])
           \<and> fst (processVoiceCommand LoginPage_config command cf) = cf"
    if "snd (processVoiceCommand LoginPage_config command cf) = [OnSignUpCommand]"
    using that navigation_keeps_field [of LoginPage_config command cf]
    by (simp add: LoginPage_hears_def)
  have c: "RegisterPage_hears command cf p =
             (p, if name (formData p) \<noteq> [] \<and> email (formData p) \<noteq> []
                    \<and> password (formData p) \<noteq> [] \<and> confirmPassword (formData p) \<noteq> []
                 then [HandleSubmit] else [])
           \<and> fst (processVoiceCommand RegisterPage_config command cf) = cf"
    if "snd (processVoiceCommand RegisterPage_config command cf) = [OnNextCommand]
        \<and> currentField p = ConfirmPassword"
    using that navigation_keeps_field [of RegisterPage_config command cf]
    by (simp add: RegisterPage_hears_def)
  have d: "name (formData p) \<noteq> [] \<and> email (formData p) \<noteq> []
           \<and> password (formData p) \<noteq> [] \<and> confirmPassword (formData p) \<noteq> []"
    if "HandleSubmit \<in> set (snd (RegisterPage_hears command cf p))"
    using that unfolding RegisterPage_hears_def
    by (rule RegisterPage_apply_one [OF processVoiceCommand_one_call])
  have e: "login_email q \<noteq> [] \<and> login_password q \<noteq> []"
    if "HandleSubmit \<in> set (snd (LoginPage_hears command cf q))"
    using that unfolding LoginPage_hears_def
    by (rule LoginPage_apply_one [OF processVoiceCommand_one_call])
  show ?thesis
    apply (intro conjI)
          apply (rule impI, erule a)
         apply (rule impI, erule b)
        apply (rule impI, erule a')
       apply (rule impI, erule b')
      apply (rule impI, erule c)
     apply (rule impI, erule d)
    apply (rule impI, erule e)
    done
qed

theorem guarded_voice_submission_witness:
  "snd (processVoiceCommand RegisterPage_config ''sign up'' (Some Email)) = [OnSignUpCommand]
   \<and> RegisterPage_hears ''sign up'' (Some Email)
       \<lparr>formData = \<lparr>name = ''jane'', email = ''jane@example.com'', password = ''pw1'',
                     confirmPassword = ''pw1''\<rparr>, currentField = ConfirmPassword\<rparr> =
       (\<lparr>formData = \<lparr>name = ''jane'', email = ''jane@example.com'', password = ''pw1'',
                      confirmPassword = ''pw1''\<rparr>, currentField = ConfirmPassword\<rparr>,
        [HandleSubmit])
   \<and> RegisterPage_hears ''sign up'' (Some Email)
       \<lparr>formData = \<lparr>name = ''jane'', email = ''jane@example.com'', password = ''pw1'',
                     confirmPassword = []\<rparr>, currentField = ConfirmPassword\<rparr> =
       (\<lparr>formData = \<lparr>name = ''jane'', email = ''jane@example.com'', password = ''pw1'',
                      confirmPassword = []\<rparr>, currentField = ConfirmPassword\<rparr>, [])
   \<and> snd (processVoiceCommand RegisterPage_config ''next'' (Some Email)) = [OnNextCommand]
   \<and> RegisterPage_hears ''next'' (Some Email)
       \<lparr>formData = \<lparr>name = ''jane'', email = ''jane@example.com'', password = ''pw1'',
                     confirmPassword = ''pw1''\<rparr>, currentField = ConfirmPassword\<rparr> =
       (\<lparr>formData = \<lparr>name = ''jane'', email = ''jane@example.com'', password = ''pw1'',
                      confirmPassword = ''pw1''\<rparr>, currentField = ConfirmPassword\<rparr>,
        [HandleSubmit])
   \<and> RegisterPage_hears ''next'' (Some Email)
       \<lparr>formData = \<lparr>name = ''jane'', email = ''jane@example.com'', password = ''pw1'',
                     confirmPassword = []\<rparr>, currentField = ConfirmPassword\<rparr> =
       (\<lparr>formData = \<lparr>name = ''jane'', email = ''jane@example.com'', password = ''pw1'',
                      confirmPassword = []\<rparr>, currentField = ConfirmPassword\<rparr>, [])
   \<and> snd (processVoiceCommand LoginPage_config ''sign in'' (Some Email)) = [OnSignInCommand]
   \<and> LoginPage_hears ''sign in'' (Some Email)
       \<lparr>login_email = ''jane@example.com'', login_password = ''pw1''\<rparr> =
       (\<lparr>login_email = ''jane@example.com'', login_password = ''pw1''\<rparr>, [HandleSubmit])
   \<and> LoginPage_hears ''sign in'' (Some Email)
       \<lparr>login_email = ''jane@example.com'', login_password = []\<rparr> =
       (\<lparr>login_email = ''jane@example.com'', login_password = []\<rparr>, [])
   \<and> snd (processVoiceCommand LoginPage_config ''sign up'' (Some Email)) = [OnSignUpCommand]
   \<and> LoginPage_hears ''sign up'' (Some Email)
       \<lparr>login_email = ''jane@example.com'', login_password = ''pw1''\<rparr> =
       (\<lparr>login_email = ''jane@example.com'', login_password = ''pw1''\<rparr>, [])"
proof -
  let ?full = "\<lparr>formData = \<lparr>name = ''jane'', email = ''jane@example.com'', password = ''pw1'',
                     confirmPassword = ''pw1''\<rparr>, currentField = ConfirmPassword\<rparr>"
  let ?part = "\<lparr>formData = \<lparr>name = ''jane'', email = ''jane@example.com'', password = ''pw1'',
                     confirmPassword = []\<rparr>, currentField = ConfirmPassword\<rparr>"
  let ?q = "\<lparr>login_email = ''jane@example.com'', login_password = ''pw1''\<rparr>"
  let ?r = "\<lparr>login_email = ''jane@example.com'', login_password = []\<rparr>"
  have c1: "snd (processVoiceCommand RegisterPage_config ''sign up'' (Some Email)) = [OnSignUpCommand]"
    by (simp add: processVoiceCommand_def)
  have c2: "snd (processVoiceCommand LoginPage_config ''sign in'' (Some Email)) = [OnSignInCommand]"
    by (simp add: processVoiceCommand_def)
  have c3: "snd (processVoiceCommand RegisterPage_config ''next'' (Some Email)) = [OnNextCommand]"
    by (simp add: processVoiceCommand_def)
  have c4: "snd (processVoiceCommand LoginPage_config ''sign up'' (Some Email)) = [OnSignUpCommand]"
    by (simp add: processVoiceCommand_def)
  have f: "currentField ?full = ConfirmPassword" "currentField ?part = ConfirmPassword"
    by simp_all
  have "RegisterPage_hears ''sign up'' (Some Email) ?full =
          (?full, if name (formData ?full) \<noteq> [] \<and> email (formData ?full) \<noteq> []
                     \<and> password (formData ?full) \<noteq> [] \<and> confirmPassword (formData ?full) \<noteq> []
                  then [HandleSubmit] else [])"
    using guarded_voice_submission [of "''sign up''" "Some Email" ?full ?q] c1 by blast
  then have r1: "RegisterPage_hears ''sign up'' (Some Email) ?full = (?full, [HandleSubmit])"
    by simp
  have "RegisterPage_hears ''sign up'' (Some Email) ?part =
          (?part, if name (formData ?part) \<noteq> [] \<and> email (formData ?part) \<noteq> []
                     \<and> password (formData ?part) \<noteq> [] \<and> confirmPassword (formData ?part) \<noteq> []
                  then [HandleSubmit] else [])"
    using guarded_voice_submission [of "''sign up''" "Some Email" ?part ?q] c1 by blast
  then have r2: "RegisterPage_hears ''sign up'' (Some Email) ?part = (?part, [])"
    by simp
  have "RegisterPage_hears ''next'' (Some Email) ?full =
          (?full, if name (formData ?full) \<noteq> [] \<and> email (formData ?full) \<noteq> []
                     \<and> password (formData ?full) \<noteq> [] \<and> confirmPassword (formData ?full) \<noteq> []
                  then [HandleSubmit] else [])"
    using guarded_voice_submission [of "''next''" "Some Email" ?full ?q] c3 f by blast
  then have r3: "RegisterPage_hears ''next'' (Some Email) ?full = (?full, [HandleSubmit])"
    by simp
  have "RegisterPage_hears ''next'' (Some Email) ?part =
          (?part, if name (formData ?part) \<noteq> [] \<and> email (formData ?part) \<noteq> []
                     \<and> password (formData ?part) \<noteq> [] \<and> confirmPassword (formData ?part) \<noteq> []
                  then [HandleSubmit] else [])"
    using guarded_voice_submission [of "''next''" "Some Email" ?part ?q] c3 f by blast
  then have r4: "RegisterPage_hears ''next'' (Some Email) ?part = (?part, [])"
    by simp
  have "LoginPage_hears ''sign in'' (Some Email) ?q =
          (?q, if login_email ?q \<noteq> [] \<and> login_password ?q \<noteq> [] then [HandleSubmit] else [])"
    using guarded_voice_submission [of "''sign in''" "Some Email" ?full ?q] c2 by blast
  then have r5: "LoginPage_hears ''sign in'' (Some Email) ?q = (?q, [HandleSubmit])"
    by simp
  have "LoginPage_hears ''sign in'' (Some Email) ?r =
          (?r, if login_email ?r \<noteq> [] \<and> login_password ?r \<noteq> [] then [HandleSubmit] else [])"
    using guarded_voice_submission [of "''sign in''" "Some Email" ?full ?r] c2 by blast
  then have r6: "LoginPage_hears ''sign in'' (Some Email) ?r = (?r, [])"
    by simp
  have r7: "LoginPage_hears ''sign up'' (Some Email) ?q = (?q, [])"
    using guarded_voice_submission [of "''sign up''" "Some Email" ?full ?q] c4 by blast
  show ?thesis
    apply (intro conjI)
    apply (rule c1) apply (rule r1) apply (rule r2) apply (rule c3) apply (rule r3)
    apply (rule r4) apply (rule c2) apply (rule r5) apply (rule r6) apply (rule c4)
    apply (rule r7)
    done
qed

theorem guarded_voice_submission_counterexample:
  "snd (processVoiceCommand RegisterPage_config ''sign in'' None) = [OnSignInCommand]
   \<and> email (formData initialRegisterPage) = []
   \<and> RegisterPage_hears ''sign in'' None initialRegisterPage =
       (initialRegisterPage, [NavigateTo ''/login''])"
  by (simp add: RegisterPage_hears_def processVoiceCommand_def initialRegisterPage_def)


section \<open>The recognition session\<close>

lemma recognition_step_supported:
  "isSupported (recognition_step e s) = isSupported s"
  by (cases e) (auto simp: step_defs Let_def split: list.splits timer.splits prod.splits)

lemma retry_balance_step:
  "isSupported s \<Longrightarrow>
   automaticStarts (recognition_step e s) + pendingRetries (recognition_step e s) =
   automaticStarts s + pendingRetries s + noSpeechErrors [e]"
  by (cases e)
     (auto simp: step_defs Let_def automaticStarts_def pendingRetries_def noSpeechErrors_def
           split: list.splits timer.splits prod.splits)

lemma noSpeechErrors_Cons: "noSpeechErrors (e # es) = noSpeechErrors [e] + noSpeechErrors es"
  by (simp add: noSpeechErrors_def)

lemma retry_balance_run:
  "isSupported s \<Longrightarrow>
   automaticStarts (recognition_run es s) + pendingRetries (recognition_run es s) =
   automaticStarts s + pendingRetries s + noSpeechErrors es"
proof (induction es arbitrary: s)
  case Nil
  then show ?case by (simp add: noSpeechErrors_def)
next
  case (Cons e es)
  have sup: "isSupported (recognition_step e s)"
    using Cons.prems by (simp add: recognition_step_supported)
  have "automaticStarts (recognition_run (e # es) s) + pendingRetries (recognition_run (e # es) s) =
        automaticStarts (recognition_step e s) + pendingRetries (recognition_step e s)
          + noSpeechErrors es"
    using Cons.IH [OF sup] by simp
  also have "\<dots> = automaticStarts s + pendingRetries s + noSpeechErrors [e] + noSpeechErrors es"
    using retry_balance_step [OF Cons.prems, of e] by simp
  finally show ?case by (simp add: noSpeechErrors_Cons [of e es])
qed

text \<open>
  C1, amended. While the engine is supported, every engine error of kind no-speech
  clears the listening flag and schedules exactly one retry, with a delay of 1000 ms;
  an error of any other kind schedules nothing. When a retry fires, the engine's start
  primitive is invoked exactly once and nothing is scheduled, whether or not the call
  raises. A retried session that ends in another no-speech error is retried in the same
  way: over every sequence of events, the automatic start invocations made and the
  retries still pending grow by exactly the number of no-speech errors received, so there
  is one automatic start for each no-speech error and no bound on consecutive retries.
\<close>

theorem no_speech_retry_per_error:
  "isSupported s \<longrightarrow>
     recognition_step (OnError ''no-speech'') s =
       s\<lparr>isListening := False, timers := timers s @ [(1000, RetryStart)]\<rparr>
   \<and> (err \<noteq> ''no-speech'' \<longrightarrow> recognition_step (OnError err) s = s\<lparr>isListening := False\<rparr>)
   \<and> (timers s = (delay, RetryStart) # rest \<longrightarrow>
        recognition_step (Timeout fails) s =
          s\<lparr>timers := rest, engineCalls := engineCalls s @ [EngineStart ByRetryTimer]\<rparr>)
   \<and> automaticStarts (recognition_run es s) + pendingRetries (recognition_run es s) =
       automaticStarts s + pendingRetries s + noSpeechErrors es"
proof (intro impI conjI)
  assume sup: "isSupported s"
  show "recognition_step (OnError ''no-speech'') s =
          s\<lparr>isListening := False, timers := timers s @ [(1000, RetryStart)]\<rparr>"
    using sup by (simp add: recognition_step_def onerror_def)
  show "recognition_step (OnError err) s = s\<lparr>isListening := False\<rparr>" if "err \<noteq> ''no-speech''"
    using sup that by (simp add: recognition_step_def onerror_def)
  show "recognition_step (Timeout fails) s =
          s\<lparr>timers := rest, engineCalls := engineCalls s @ [EngineStart ByRetryTimer]\<rparr>"
    if "timers s = (delay, RetryStart) # rest"
    using sup that by (cases fails) (simp_all add: step_defs)
  show "automaticStarts (recognition_run es s) + pendingRetries (recognition_run es s) =
          automaticStarts s + pendingRetries s + noSpeechErrors es"
    using sup by (rule retry_balance_run)
qed

theorem no_speech_retry_per_error_witness:
  "isSupported ((initialRecognitionState True)\<lparr>timers := [(1000, RetryStart)]\<rparr>)
   \<and> ''network'' \<noteq> ''no-speech''
   \<and> timers ((initialRecognitionState True)\<lparr>timers := [(1000, RetryStart)]\<rparr>) =
       (1000, RetryStart) # []
   \<and> recognition_step (Timeout True)
         ((initialRecognitionState True)\<lparr>timers := [(1000, RetryStart)]\<rparr>) =
       (initialRecognitionState True)\<lparr>engineCalls := [EngineStart ByRetryTimer]\<rparr>
   \<and> automaticStarts (recognition_run
         [Timeout False, OnStart, OnError ''no-speech'', OnEnd, Timeout True,
          OnError ''network'']
         ((initialRecognitionState True)\<lparr>timers := [(1000, RetryStart)]\<rparr>))
     + pendingRetries (recognition_run
         [Timeout False, OnStart, OnError ''no-speech'', OnEnd, Timeout True,
          OnError ''network'']
         ((initialRecognitionState True)\<lparr>timers := [(1000, RetryStart)]\<rparr>)) = 2"
proof -
  let ?s = "(initialRecognitionState True)\<lparr>timers := [(1000, RetryStart)]\<rparr>"
  let ?es = "[Timeout False, OnStart, OnError ''no-speech'', OnEnd, Timeout True,
              OnError ''network'']"
  have h: "isSupported ?s" by (simp add: initialRecognitionState_def)
  have t: "timers ?s = (1000, RetryStart) # []" by simp
  have z: "automaticStarts ?s + pendingRetries ?s = 1"
    by (simp add: automaticStarts_def pendingRetries_def initialRecognitionState_def)
  have n: "noSpeechErrors ?es = 1" by (simp add: noSpeechErrors_def)
  note g = no_speech_retry_per_error [of ?s "''network''" 1000 "[]" True ?es]
  have a: "recognition_step (Timeout True) ?s =
             ?s\<lparr>timers := [], engineCalls := engineCalls ?s @ [EngineStart ByRetryTimer]\<rparr>"
    using g h t by blast
  have b: "automaticStarts (recognition_run ?es ?s) + pendingRetries (recognition_run ?es ?s) =
             automaticStarts ?s + pendingRetries ?s + noSpeechErrors ?es"
    using g h by blast
  have a': "recognition_step (Timeout True) ?s =
              (initialRecognitionState True)\<lparr>engineCalls := [EngineStart ByRetryTimer]\<rparr>"
    unfolding a by (simp add: initialRecognitionState_def)
  have b': "automaticStarts (recognition_run ?es ?s) + pendingRetries (recognition_run ?es ?s) = 2"
    unfolding b z n by simp
  show ?thesis using h t a' b' by simp
qed

theorem no_speech_retry_counterexample:
  "engineCalls (recognition_run
      [StartListening False, OnStart, OnError ''no-speech'', OnEnd, Timeout False,
       OnStart, OnError ''no-speech'', OnEnd, Timeout False]
      (initialRecognitionState True)) =
     [EngineStart ByStartListening, EngineStart ByRetryTimer, EngineStart ByRetryTimer]
   \<and> automaticStarts (recognition_run
      [StartListening False, OnStart, OnError ''no-speech'', OnEnd, Timeout False,
       OnStart, OnError ''no-speech'', OnEnd, Timeout False]
      (initialRecognitionState True)) = 2"
  by (simp add: step_defs automaticStarts_def initialRecognitionState_def)

text \<open>
  C5, amended. While the engine is supported, a result event never changes the listening
  flag, and a final result publishes its trimmed text as the transcript, so the flag has
  at publication the value it had before (true after the engine's start event). The flag
  is cleared only by an end event or an error event; the end event clears it and leaves
  the published transcript in place.
\<close>

theorem listening_unchanged_by_result:
  "isSupported s \<longrightarrow>
     isListening (recognition_step (OnResult isFinal text) s) = isListening s
   \<and> transcript (recognition_step (OnResult True text) s) = trim text
   \<and> (isListening s \<and> \<not> isListening (recognition_step e s) \<longrightarrow>
        e = OnEnd \<or> (\<exists>err. e = OnError err))
   \<and> \<not> isListening (recognition_step OnEnd s)
   \<and> transcript (recognition_step OnEnd s) = transcript s"
  by (cases e) (auto simp: step_defs Let_def split: list.splits timer.splits prod.splits)

theorem listening_unchanged_by_result_witness:
  "isSupported ((initialRecognitionState True)\<lparr>isListening := True\<rparr>)
   \<and> isListening (recognition_step (OnResult True ''hello'')
        ((initialRecognitionState True)\<lparr>isListening := True\<rparr>))
   \<and> transcript (recognition_step (OnResult True ''hello'')
        ((initialRecognitionState True)\<lparr>isListening := True\<rparr>)) = ''hello''
   \<and> \<not> isListening (recognition_step OnEnd
        ((initialRecognitionState True)\<lparr>isListening := True\<rparr>))"
proof -
  let ?s = "(initialRecognitionState True)\<lparr>isListening := True\<rparr>"
  have h: "isSupported ?s" by (simp add: initialRecognitionState_def)
  have l: "isListening ?s" by simp
  have t: "trim ''hello'' = ''hello''" by (simp add: trim_def isWhiteSpace_def)
  note g = listening_unchanged_by_result [of ?s True "''hello''" OnEnd]
  have a: "isListening (recognition_step (OnResult True ''hello'') ?s) = isListening ?s"
    using g h by blast
  have b: "transcript (recognition_step (OnResult True ''hello'') ?s) = trim ''hello''"
    using g h by blast
  have c: "\<not> isListening (recognition_step OnEnd ?s)"
    using g h by blast
  show ?thesis using h l a b c unfolding t by simp
qed

theorem listening_at_publication_counterexample:
  "transcript (recognition_run [StartListening False, OnStart, OnResult True ''hello'']
      (initialRecognitionState True)) = ''hello''
   \<and> isListening (recognition_run [StartListening False, OnStart, OnResult True ''hello'']
      (initialRecognitionState True))"
  by (simp add: step_defs initialRecognitionState_def trim_def isWhiteSpace_def)

text \<open>
  C9. \<^verbatim>\<open>startListening\<close> changes nothing when the engine is unsupported or the hook is
  already listening. Otherwise it clears the transcript and invokes the engine's start
  primitive once; the listening flag is false afterwards also when the primitive raises.
  Whatever the primitive does, \<^verbatim>\<open>startListening\<close> returns normally: the exception is caught
  and does not leave it.
\<close>

theorem startListening_absorbs_errors:
  "(\<not> isSupported s \<or> isListening s \<longrightarrow> startListening fails s = (s, Normal))
   \<and> (isSupported s \<and> \<not> isListening s \<longrightarrow>
        startListening fails s =
          (s\<lparr>transcript := [],
             engineCalls := engineCalls s @ [EngineStart ByStartListening],
             isListening := False\<rparr>, Normal))
   \<and> snd (startListening fails s) = Normal
   \<and> recognition_step (StartListening fails) s = fst (startListening fails s)"
  by (cases fails) (auto simp: startListening_def engine_start_def recognition_step_def)

theorem startListening_absorbs_errors_witness:
  "isSupported ((initialRecognitionState True)\<lparr>transcript := ''old''\<rparr>)
   \<and> \<not> isListening ((initialRecognitionState True)\<lparr>transcript := ''old''\<rparr>)
   \<and> startListening True ((initialRecognitionState True)\<lparr>transcript := ''old''\<rparr>) =
       ((initialRecognitionState True)\<lparr>engineCalls := [EngineStart ByStartListening]\<rparr>, Normal)
   \<and> isListening ((initialRecognitionState True)\<lparr>isListening := True\<rparr>)
   \<and> startListening True ((initialRecognitionState True)\<lparr>isListening := True\<rparr>) =
       ((initialRecognitionState True)\<lparr>isListening := True\<rparr>, Normal)"
proof -
  let ?s = "(initialRecognitionState True)\<lparr>transcript := ''old''\<rparr>"
  let ?l = "(initialRecognitionState True)\<lparr>isListening := True\<rparr>"
  have h: "isSupported ?s" "\<not> isListening ?s" "isListening ?l"
    by (simp_all add: initialRecognitionState_def)
  have "startListening True ?s =
          (?s\<lparr>transcript := [], engineCalls := engineCalls ?s @ [EngineStart ByStartListening],
              isListening := False\<rparr>, Normal)"
    using startListening_absorbs_errors [of ?s True] h by blast
  then have a: "startListening True ?s =
          ((initialRecognitionState True)\<lparr>engineCalls := [EngineStart ByStartListening]\<rparr>, Normal)"
    by (simp add: initialRecognitionState_def)
  have b: "startListening True ?l = (?l, Normal)"
    using startListening_absorbs_errors [of ?l True] h by blast
  show ?thesis using h a b by simp
qed



section \<open>The transcript effect\<close>

lemma transcriptEffect_skip:
  "transcript s = [] \<or> transcript s = lastTranscriptRef s \<Longrightarrow>
     transcriptEffect config s = (s, Normal)"
  by (auto simp: transcriptEffect_def)

lemma transcript_after_step:
  "transcript (recognition_step ev s) = transcript s
   \<or> transcript (recognition_step ev s) = []
   \<or> (\<exists>text. ev = OnResult True text \<and> transcript (recognition_step ev s) = trim text)"
  by (cases ev) (auto simp: step_defs Let_def split: list.splits timer.splits prod.splits)

lemma recognition_step_keeps:
  "lastTranscriptRef (recognition_step ev s) = lastTranscriptRef s"
  "processed (recognition_step ev s) = processed s"
  "invoked (recognition_step ev s) = invoked s"
  by (cases ev; auto simp: step_defs Let_def split: list.splits timer.splits prod.splits)+

lemma repeat_step:
  assumes "lastTranscriptRef s = t" and "\<not> publishesOther t e"
  shows "\<exists>s1. hook_step config e s = (s1, Normal) \<and> lastTranscriptRef s1 = t
           \<and> processed s1 = processed s \<and> invoked s1 = invoked s"
proof (cases e)
  case (SetCurrentField f)
  then show ?thesis using assms by (simp add: hook_step_def setCurrentField_def)
next
  case (Session ev)
  let ?s1 = "recognition_step ev s"
  have keep: "lastTranscriptRef ?s1 = t" "processed ?s1 = processed s" "invoked ?s1 = invoked s"
    using assms(1) by (simp_all add: recognition_step_keeps)
  show ?thesis
  proof (cases "transcript ?s1 = transcript s")
    case True
    then show ?thesis using Session keep by (simp add: hook_step_def)
  next
    case False
    have "transcript ?s1 = [] \<or> transcript ?s1 = lastTranscriptRef ?s1"
      using transcript_after_step [of ev s] False assms(2) Session keep(1) by auto
    then have "transcriptEffect config ?s1 = (?s1, Normal)" by (rule transcriptEffect_skip)
    then show ?thesis using Session keep False by (simp add: hook_step_def)
  qed
qed

lemma repeat_run:
  "lastTranscriptRef s = t \<Longrightarrow> \<forall>e \<in> set es. \<not> publishesOther t e \<Longrightarrow>
     snd (hook_run config es s) = Normal
     \<and> lastTranscriptRef (fst (hook_run config es s)) = t
     \<and> processed (fst (hook_run config es s)) = processed s
     \<and> invoked (fst (hook_run config es s)) = invoked s"
proof (induction es arbitrary: s)
  case Nil
  then show ?case by simp
next
  case (Cons e es)
  then obtain s1 where s1: "hook_step config e s = (s1, Normal)" "lastTranscriptRef s1 = t"
      "processed s1 = processed s" "invoked s1 = invoked s"
    using repeat_step [of s t e config] by auto
  have "\<forall>e \<in> set es. \<not> publishesOther t e" using Cons.prems by simp
  from Cons.IH [OF s1(2) this] show ?case using s1 by simp
qed

lemma lastTranscriptRef_never_cleared:
  "lastTranscriptRef s \<noteq> [] \<Longrightarrow> lastTranscriptRef (fst (hook_step config e s)) \<noteq> []"
proof (cases e)
  case (SetCurrentField f)
  assume "lastTranscriptRef s \<noteq> []"
  then show ?thesis using SetCurrentField by (simp add: hook_step_def setCurrentField_def)
next
  case (Session ev)
  assume "lastTranscriptRef s \<noteq> []"
  then show ?thesis using Session recognition_step_keeps(1) [of ev s]
    by (auto simp: hook_step_def transcriptEffect_def Let_def)
qed

text \<open>
  C3. For every non-empty transcript \<open>t\<close> that differs from the last admitted one, the
  effect run on \<open>t\<close> hands the lower-cased \<open>t\<close> to the interpreter once, adds exactly the
  invocations of that one interpretation and records \<open>t\<close> as admitted; run on \<open>t\<close> again
  directly afterwards, it changes nothing: no interpretation, no invocation, no timer.
\<close>

theorem transcript_gate_dedup:
  "t \<noteq> [] \<and> t \<noteq> lastTranscriptRef s \<longrightarrow>
     processed (fst (transcriptEffect config (s\<lparr>transcript := t\<rparr>))) =
       processed s @ [toLowerCase t]
   \<and> invoked (fst (transcriptEffect config (s\<lparr>transcript := t\<rparr>))) =
       invoked s @ snd (processVoiceCommand config (toLowerCase t) (currentFieldRef s))
   \<and> lastTranscriptRef (fst (transcriptEffect config (s\<lparr>transcript := t\<rparr>))) = t
   \<and> transcriptEffect config ((fst (transcriptEffect config (s\<lparr>transcript := t\<rparr>)))\<lparr>transcript := t\<rparr>) =
       (fst (transcriptEffect config (s\<lparr>transcript := t\<rparr>)), Normal)"
  by (auto simp: transcriptEffect_def Let_def)

theorem transcript_gate_dedup_witness:
  "''Next'' \<noteq> [] \<and> ''Next'' \<noteq> lastTranscriptRef (initialVoiceCommandsState True)
   \<and> processed (fst (transcriptEffect RegisterPage_config
        ((initialVoiceCommandsState True)\<lparr>transcript := ''Next''\<rparr>))) = [''next'']
   \<and> invoked (fst (transcriptEffect RegisterPage_config
        ((initialVoiceCommandsState True)\<lparr>transcript := ''Next''\<rparr>))) = [OnNextCommand]
   \<and> transcriptEffect RegisterPage_config
        ((fst (transcriptEffect RegisterPage_config
           ((initialVoiceCommandsState True)\<lparr>transcript := ''Next''\<rparr>)))\<lparr>transcript := ''Next''\<rparr>) =
       (fst (transcriptEffect RegisterPage_config
           ((initialVoiceCommandsState True)\<lparr>transcript := ''Next''\<rparr>)), Normal)"
proof -
  let ?s = "initialVoiceCommandsState True"
  have h: "''Next'' \<noteq> [] \<and> ''Next'' \<noteq> lastTranscriptRef ?s"
    by (simp add: initialVoiceCommandsState_def)
  have l: "toLowerCase ''Next'' = ''next''" by (simp add: string_defs)
  have p: "processed ?s = []" "invoked ?s = []" "currentFieldRef ?s = None"
    by (simp_all add: initialVoiceCommandsState_def)
  have c: "snd (processVoiceCommand RegisterPage_config ''next'' None) = [OnNextCommand]"
    by (simp add: processVoiceCommand_def)
  note g = transcript_gate_dedup [of "''Next''" ?s RegisterPage_config]
  have a: "processed (fst (transcriptEffect RegisterPage_config (?s\<lparr>transcript := ''Next''\<rparr>))) =
             processed ?s @ [toLowerCase ''Next'']"
    using g h by blast
  have b: "invoked (fst (transcriptEffect RegisterPage_config (?s\<lparr>transcript := ''Next''\<rparr>))) =
             invoked ?s @ snd (processVoiceCommand RegisterPage_config (toLowerCase ''Next'')
               (currentFieldRef ?s))"
    using g h by blast
  have d: "transcriptEffect RegisterPage_config
        ((fst (transcriptEffect RegisterPage_config (?s\<lparr>transcript := ''Next''\<rparr>)))\<lparr>transcript := ''Next''\<rparr>) =
       (fst (transcriptEffect RegisterPage_config (?s\<lparr>transcript := ''Next''\<rparr>)), Normal)"
    using g h by blast
  have a': "processed (fst (transcriptEffect RegisterPage_config (?s\<lparr>transcript := ''Next''\<rparr>))) =
              [''next'']"
    unfolding a l p by simp
  have b': "invoked (fst (transcriptEffect RegisterPage_config (?s\<lparr>transcript := ''Next''\<rparr>))) =
              [OnNextCommand]"
    unfolding b l p c by simp
  show ?thesis using h a' b' d by blast
qed

text \<open>
  C8, amended. For every admitted transcript (non-empty and different from the guard),
  the guard \<^verbatim>\<open>lastTranscriptRef\<close> holds that transcript after the effect whatever the
  interpretation does: the write of line 22 comes before the interpretation of line 23,
  and stays when a callback raises and the effect is left. The interpreter is handed the
  lower-cased transcript once, and the effect is left by an exception exactly when an
  invoked callback raises. A transcript that is not admitted changes nothing.
\<close>

theorem guard_written_before_interpretation:
  "(transcript s \<noteq> [] \<and> transcript s \<noteq> lastTranscriptRef s \<longrightarrow>
      lastTranscriptRef (fst (transcriptEffect config s)) = transcript s
      \<and> processed (fst (transcriptEffect config s)) = processed s @ [toLowerCase (transcript s)]
      \<and> (snd (transcriptEffect config s) = Exception \<longleftrightarrow>
           list_ex (throws config)
             (snd (processVoiceCommand config (toLowerCase (transcript s)) (currentFieldRef s)))))
   \<and> (transcript s = [] \<or> transcript s = lastTranscriptRef s \<longrightarrow>
        transcriptEffect config s = (s, Normal))"
  by (auto simp: transcriptEffect_def Let_def)

theorem guard_written_before_interpretation_witness:
  "transcript ((initialVoiceCommandsState True)\<lparr>transcript := ''hello''\<rparr>) \<noteq> []
   \<and> transcript ((initialVoiceCommandsState True)\<lparr>transcript := ''hello''\<rparr>) \<noteq>
       lastTranscriptRef ((initialVoiceCommandsState True)\<lparr>transcript := ''hello''\<rparr>)
   \<and> lastTranscriptRef (fst (transcriptEffect LoginPage_config
        ((initialVoiceCommandsState True)\<lparr>transcript := ''hello''\<rparr>))) = ''hello''
   \<and> transcript (initialVoiceCommandsState True) = []
   \<and> transcriptEffect LoginPage_config (initialVoiceCommandsState True) =
       (initialVoiceCommandsState True, Normal)"
proof -
  let ?s = "(initialVoiceCommandsState True)\<lparr>transcript := ''hello''\<rparr>"
  have h: "transcript ?s \<noteq> [] \<and> transcript ?s \<noteq> lastTranscriptRef ?s"
    by (simp add: initialVoiceCommandsState_def)
  have e: "transcript (initialVoiceCommandsState True) = []"
    by (simp add: initialVoiceCommandsState_def)
  have t: "transcript ?s = ''hello''" by simp
  have "lastTranscriptRef (fst (transcriptEffect LoginPage_config ?s)) = transcript ?s"
    using guard_written_before_interpretation [of ?s LoginPage_config] h by blast
  then have a: "lastTranscriptRef (fst (transcriptEffect LoginPage_config ?s)) = ''hello''"
    unfolding t .
  have b: "transcriptEffect LoginPage_config (initialVoiceCommandsState True) =
             (initialVoiceCommandsState True, Normal)"
    using guard_written_before_interpretation
      [of "initialVoiceCommandsState True" LoginPage_config] e by blast
  show ?thesis using h e a b by blast
qed

theorem guard_written_before_interpretation_counterexample:
  "snd (transcriptEffect (RegisterPage_config\<lparr>throws := (\<lambda>c. c = OnNextCommand)\<rparr>)
          ((initialVoiceCommandsState True)\<lparr>transcript := ''next''\<rparr>)) = Exception
   \<and> lastTranscriptRef (fst (transcriptEffect
          (RegisterPage_config\<lparr>throws := (\<lambda>c. c = OnNextCommand)\<rparr>)
          ((initialVoiceCommandsState True)\<lparr>transcript := ''next''\<rparr>))) = ''next''
   \<and> lastTranscriptRef ((initialVoiceCommandsState True)\<lparr>transcript := ''next''\<rparr>) = []"
  by (simp add: transcriptEffect_def processVoiceCommand_def string_defs
        initialVoiceCommandsState_def RegisterPage_config_def)

text \<open>
  C4, amended. The record of the last admitted transcript is never cleared: no event
  makes a non-empty \<^verbatim>\<open>lastTranscriptRef\<close> empty, and \<^verbatim>\<open>resetTranscript\<close>, called directly or
  by the scheduled timer, leaves it as it is. So when \<open>t\<close> is the last admitted transcript,
  over every sequence of events in which no final result publishes a non-empty
  transcript other than \<open>t\<close> (timers may fire, sessions may start and end, \<open>t\<close> may be
  published again), nothing is handed to the interpreter, no callback is invoked and \<open>t\<close>
  stays the last admitted transcript.
\<close>

theorem last_transcript_never_cleared:
  "(lastTranscriptRef s = t \<and> (\<forall>e \<in> set es. \<not> publishesOther t e) \<longrightarrow>
      snd (hook_run config es s) = Normal
      \<and> lastTranscriptRef (fst (hook_run config es s)) = t
      \<and> processed (fst (hook_run config es s)) = processed s
      \<and> invoked (fst (hook_run config es s)) = invoked s)
   \<and> (lastTranscriptRef s \<noteq> [] \<longrightarrow> lastTranscriptRef (fst (hook_step config e s)) \<noteq> [])
   \<and> lastTranscriptRef (fst (hook_step config (Session ResetTranscript) s)) = lastTranscriptRef s
   \<and> lastTranscriptRef (resetTranscript s) = lastTranscriptRef s"
proof (intro conjI impI)
  assume "lastTranscriptRef s = t \<and> (\<forall>e \<in> set es. \<not> publishesOther t e)"
  then have r: "snd (hook_run config es s) = Normal
      \<and> lastTranscriptRef (fst (hook_run config es s)) = t
      \<and> processed (fst (hook_run config es s)) = processed s
      \<and> invoked (fst (hook_run config es s)) = invoked s"
    using repeat_run [of s t es config] by blast
  from r show "snd (hook_run config es s) = Normal" by blast
  from r show "lastTranscriptRef (fst (hook_run config es s)) = t" by blast
  from r show "processed (fst (hook_run config es s)) = processed s" by blast
  from r show "invoked (fst (hook_run config es s)) = invoked s" by blast
next
  assume "lastTranscriptRef s \<noteq> []"
  then show "lastTranscriptRef (fst (hook_step config e s)) \<noteq> []"
    by (rule lastTranscriptRef_never_cleared)
next
  show "lastTranscriptRef (fst (hook_step config (Session ResetTranscript) s)) =
          lastTranscriptRef s"
    by (auto simp: hook_step_def transcriptEffect_def Let_def step_defs)
next
  show "lastTranscriptRef (resetTranscript s) = lastTranscriptRef s"
    by (simp add: resetTranscript_def)
qed

theorem last_transcript_never_cleared_counterexample:
  "processed (fst (hook_run RegisterPage_config
      [Session (StartListening False), Session OnStart, Session (OnResult True ''next''),
       Session OnEnd, Session (Timeout False),
       Session (StartListening False), Session OnStart, Session (OnResult True ''email''),
       Session OnEnd, Session (Timeout False),
       Session (StartListening False), Session OnStart, Session (OnResult True ''next''),
       Session OnEnd, Session (Timeout False)]
      (initialVoiceCommandsState True))) = [''next'', ''email'', ''next'']
   \<and> invoked (fst (hook_run RegisterPage_config
      [Session (StartListening False), Session OnStart, Session (OnResult True ''next''),
       Session OnEnd, Session (Timeout False),
       Session (StartListening False), Session OnStart, Session (OnResult True ''email''),
       Session OnEnd, Session (Timeout False),
       Session (StartListening False), Session OnStart, Session (OnResult True ''next''),
       Session OnEnd, Session (Timeout False)]
      (initialVoiceCommandsState True))) = [OnNextCommand, OnNextCommand]"
  by (simp add: hook_defs step_defs string_defs initialVoiceCommandsState_def
        RegisterPage_config_def Let_def)

theorem last_transcript_never_cleared_witness:
  "lastTranscriptRef ((initialVoiceCommandsState True)
       \<lparr>transcript := ''next'', timers := [(1000, ResetTranscriptTimer)],
        lastTranscriptRef := ''next'', processed := [''next''],
        invoked := [OnNextCommand]\<rparr>) = ''next''
   \<and> list_all (\<lambda>e. \<not> publishesOther ''next'' e)
        [Session (Timeout False), Session (StartListening False), Session OnStart,
         Session (OnResult True ''next''), Session OnEnd]
   \<and> processed (fst (hook_run RegisterPage_config
        [Session (Timeout False), Session (StartListening False), Session OnStart,
         Session (OnResult True ''next''), Session OnEnd]
        ((initialVoiceCommandsState True)
           \<lparr>transcript := ''next'', timers := [(1000, ResetTranscriptTimer)],
            lastTranscriptRef := ''next'', processed := [''next''],
            invoked := [OnNextCommand]\<rparr>))) = [''next'']
   \<and> invoked (fst (hook_run RegisterPage_config
        [Session (Timeout False), Session (StartListening False), Session OnStart,
         Session (OnResult True ''next''), Session OnEnd]
        ((initialVoiceCommandsState True)
           \<lparr>transcript := ''next'', timers := [(1000, ResetTranscriptTimer)],
            lastTranscriptRef := ''next'', processed := [''next''],
            invoked := [OnNextCommand]\<rparr>))) = [OnNextCommand]"
proof -
  let ?s = "(initialVoiceCommandsState True)
       \<lparr>transcript := ''next'', timers := [(1000, ResetTranscriptTimer)],
        lastTranscriptRef := ''next'', processed := [''next''],
        invoked := [OnNextCommand]\<rparr>"
  let ?es = "[Session (Timeout False), Session (StartListening False), Session OnStart,
         Session (OnResult True ''next''), Session OnEnd]"
  have h1: "lastTranscriptRef ?s = ''next''" by simp
  have h2: "\<forall>e \<in> set ?es. \<not> publishesOther ''next'' e"
    by (simp add: trim_def isWhiteSpace_def)
  have h2': "list_all (\<lambda>e. \<not> publishesOther ''next'' e) ?es"
    using h2 by (simp only: list_all_iff)
  have p: "processed ?s = [''next'']" "invoked ?s = [OnNextCommand]" by simp_all
  note g = last_transcript_never_cleared [of ?s "''next''" ?es RegisterPage_config]
  have a: "processed (fst (hook_run RegisterPage_config ?es ?s)) = processed ?s"
    using g h1 h2 by blast
  have b: "invoked (fst (hook_run RegisterPage_config ?es ?s)) = invoked ?s"
    using g h1 h2 by blast
  show ?thesis using h1 h2' a b unfolding p by blast
qed

end
